theory Spec2Isabelle
  imports Main "HOL-Library.FSet" "HOL-Library.AList" "HOL-Library.Extended_Nat"
begin

section \<open>Matchmaking of the lichess bot: slot tracker and challenge scheduler\<close>

text \<open>
  A shallow embedding of \<^verbatim>\<open>lib/matchmaking.py\<close>. Python sets of strings are finite
  sets (\<open>string fset\<close>), the dictionary \<^verbatim>\<open>slot_by_game_id\<close> is an association list in
  insertion order (assignment is \<open>AList.update\<close>, \<^verbatim>\<open>pop(k, None)\<close> is \<open>AList.delete\<close>),
  Python integers are \<open>int\<close>, and \<^verbatim>\<open>len\<close> is \<open>fcard\<close> or \<open>length\<close>.
\<close>

subsection \<open>Speeds and lanes\<close>

definition BOT_SHORT_SPEEDS :: "string fset" where
  "BOT_SHORT_SPEEDS = {|''ultraBullet'', ''bullet'', ''blitz''|}"

definition BOT_LONG_SPEEDS :: "string fset" where
  "BOT_LONG_SPEEDS = {|''rapid'', ''classical''|}"

definition CORRESPONDENCE_SPEED :: string where
  "CORRESPONDENCE_SPEED = ''correspondence''"

definition bot_lane_for_speed :: "string \<Rightarrow> string" where
  "bot_lane_for_speed speed = (if speed |\<in>| BOT_SHORT_SPEEDS then ''short'' else ''long'')"

definition is_correspondence_speed :: "string \<Rightarrow> bool" where
  "is_correspondence_speed speed \<longleftrightarrow> speed = CORRESPONDENCE_SPEED"

subsection \<open>Rating category of a time control\<close>

text \<open>
  \<^verbatim>\<open>game_category\<close>: the duration is computed first, a variant other than standard is
  returned as it is, a truthy \<^verbatim>\<open>num_days\<close> (any integer but 0) gives correspondence, and
  the three thresholds are strict upper bounds.
\<close>

definition game_category :: "string \<Rightarrow> int \<Rightarrow> int \<Rightarrow> int \<Rightarrow> string" where
  "game_category variant base_time increment num_days =
     (let game_duration = base_time + increment * 40 in
      if variant \<noteq> ''standard'' then variant
      else if num_days \<noteq> 0 then ''correspondence''
      else if game_duration < 179 then ''bullet''
      else if game_duration < 479 then ''blitz''
      else if game_duration < 1499 then ''rapid''
      else ''classical'')"

subsection \<open>The slot tracker \<^verbatim>\<open>MatchmakingSlots\<close>\<close>

record MatchmakingSlots =
  max_games :: int
  enabled :: bool
  slot_by_game_id :: "(string \<times> string) list"
  pending_outgoing_challenges :: "string fset"
  pending_outgoing_correspondence :: "string fset"

text \<open>The dataclass constructor with \<^verbatim>\<open>__post_init__\<close>.\<close>

definition MatchmakingSlots_init :: "int \<Rightarrow> MatchmakingSlots" where
  "MatchmakingSlots_init n =
     \<lparr>max_games = n, enabled = (n = 3), slot_by_game_id = [],
      pending_outgoing_challenges = {||}, pending_outgoing_correspondence = {||}\<rparr>"

definition slot_for_game :: "MatchmakingSlots \<Rightarrow> bool \<Rightarrow> string \<Rightarrow> string" where
  "slot_for_game s is_bot_game speed =
     (if is_correspondence_speed speed then CORRESPONDENCE_SPEED
      else if \<not> enabled s then ''any''
      else if \<not> is_bot_game then ''human''
      else ''bot_'' @ bot_lane_for_speed speed)"

definition reserve_game :: "string \<Rightarrow> bool \<Rightarrow> string \<Rightarrow> MatchmakingSlots \<Rightarrow> MatchmakingSlots" where
  "reserve_game game_id is_bot_game speed s =
     (if \<not> enabled s then s
      else s\<lparr>slot_by_game_id := AList.update game_id (slot_for_game s is_bot_game speed) (slot_by_game_id s),
             pending_outgoing_challenges := pending_outgoing_challenges s |-| {|game_id|},
             pending_outgoing_correspondence := pending_outgoing_correspondence s |-| {|game_id|}\<rparr>)"

definition reserve_outgoing_challenge :: "string \<Rightarrow> string \<Rightarrow> MatchmakingSlots \<Rightarrow> MatchmakingSlots" where
  "reserve_outgoing_challenge challenge_id speed s =
     (if \<not> enabled s then s
      else
        let s1 = s\<lparr>slot_by_game_id := AList.update challenge_id (slot_for_game s True speed) (slot_by_game_id s)\<rparr>
        in if is_correspondence_speed speed
           then s1\<lparr>pending_outgoing_correspondence := finsert challenge_id (pending_outgoing_correspondence s1)\<rparr>
           else s1\<lparr>pending_outgoing_challenges := finsert challenge_id (pending_outgoing_challenges s1)\<rparr>)"

definition confirm_game_start :: "string \<Rightarrow> MatchmakingSlots \<Rightarrow> MatchmakingSlots" where
  "confirm_game_start game_id s =
     (if \<not> enabled s then s
      else s\<lparr>pending_outgoing_challenges := pending_outgoing_challenges s |-| {|game_id|},
             pending_outgoing_correspondence := pending_outgoing_correspondence s |-| {|game_id|}\<rparr>)"

definition release :: "string \<Rightarrow> MatchmakingSlots \<Rightarrow> MatchmakingSlots" where
  "release game_or_challenge_id s =
     (if \<not> enabled s then s
      else s\<lparr>pending_outgoing_challenges := pending_outgoing_challenges s |-| {|game_or_challenge_id|},
             pending_outgoing_correspondence := pending_outgoing_correspondence s |-| {|game_or_challenge_id|},
             slot_by_game_id := AList.delete game_or_challenge_id (slot_by_game_id s)\<rparr>)"

definition has_reservation :: "MatchmakingSlots \<Rightarrow> string \<Rightarrow> bool" where
  "has_reservation s game_id =
     (if \<not> enabled s then False else game_id \<in> fst ` set (slot_by_game_id s))"

text \<open>
  \<^verbatim>\<open>sum(1 for x in xs if p(x))\<close> counts the elements that pass the test: over a set it is
  the cardinality of the filtered set, over the values of the dictionary the length of
  the filtered list of values.
\<close>

definition used_slots :: "MatchmakingSlots \<Rightarrow> string fset \<Rightarrow> int" where
  "used_slots s active_games =
     (if \<not> enabled s then int (fcard active_games)
      else
        let pending = fcard (ffilter (\<lambda>challenge_id. challenge_id |\<notin>| active_games)
                                       (pending_outgoing_challenges s))
        in int (fcard active_games) + int pending)"

definition count_slots :: "MatchmakingSlots \<Rightarrow> string \<Rightarrow> nat" where
  "count_slots s lane = length (filter (\<lambda>slot. slot = lane) (map snd (slot_by_game_id s)))"

definition has_correspondence_reservation :: "MatchmakingSlots \<Rightarrow> bool" where
  "has_correspondence_reservation s =
     (if \<not> enabled s then False
      else list_ex (\<lambda>slot. slot = CORRESPONDENCE_SPEED) (map snd (slot_by_game_id s)))"

definition needs_correspondence_game :: "MatchmakingSlots \<Rightarrow> bool" where
  "needs_correspondence_game s \<longleftrightarrow> enabled s \<and> \<not> has_correspondence_reservation s"

definition correspondence_reservation_count :: "MatchmakingSlots \<Rightarrow> nat" where
  "correspondence_reservation_count s =
     (if \<not> enabled s then 0 else count_slots s CORRESPONDENCE_SPEED)"

definition is_correspondence :: "MatchmakingSlots \<Rightarrow> string \<Rightarrow> bool" where
  "is_correspondence s game_or_challenge_id =
     (if \<not> enabled s then False
      else map_of (slot_by_game_id s) game_or_challenge_id = Some CORRESPONDENCE_SPEED)"

definition bot_lane_counts :: "MatchmakingSlots \<Rightarrow> nat \<times> nat" where
  "bot_lane_counts s =
     (if \<not> enabled s then (0, 0)
      else (count_slots s ''bot_short'', count_slots s ''bot_long''))"

definition can_accept_human :: "MatchmakingSlots \<Rightarrow> string fset \<Rightarrow> bool" where
  "can_accept_human s active_games \<longleftrightarrow> used_slots s active_games < max_games s"

definition can_accept_correspondence :: "MatchmakingSlots \<Rightarrow> string fset \<Rightarrow> bool" where
  "can_accept_correspondence s active_games =
     (if \<not> enabled s then used_slots s active_games < max_games s else True)"

definition can_accept_bot_speed :: "MatchmakingSlots \<Rightarrow> string \<Rightarrow> string fset \<Rightarrow> bool" where
  "can_accept_bot_speed s speed active_games =
     (if is_correspondence_speed speed then can_accept_correspondence s active_games
      else if used_slots s active_games \<ge> max_games s then False
      else if \<not> enabled s then True
      else
        let (short_count, long_count) = bot_lane_counts s in
        if short_count + long_count \<ge> 2 then False
        else
          let lane = bot_lane_for_speed speed in
          (lane = ''short'' \<and> short_count = 0) \<or> (lane = ''long'' \<and> long_count = 0))"

text \<open>Of \<^verbatim>\<open>model.Challenge\<close> the tracker reads the speed and whether the challenger is a bot.\<close>

record Challenge =
  challenge_speed :: string
  challenger_is_bot :: bool

definition can_accept_challenge :: "MatchmakingSlots \<Rightarrow> Challenge \<Rightarrow> string fset \<Rightarrow> bool" where
  "can_accept_challenge s challenge active_games =
     (if is_correspondence_speed (challenge_speed challenge) then can_accept_correspondence s active_games
      else if challenger_is_bot challenge then can_accept_bot_speed s (challenge_speed challenge) active_games
      else can_accept_human s active_games)"

definition available_bot_lanes :: "MatchmakingSlots \<Rightarrow> string fset \<Rightarrow> string fset" where
  "available_bot_lanes s active_games =
     (if used_slots s active_games \<ge> max_games s then {||}
      else if \<not> enabled s then {|''short'', ''long''|}
      else
        let (short_count, long_count) = bot_lane_counts s in
        if short_count + long_count \<ge> 2 then {||}
        else
          let available_lanes = {||};
              available_lanes = (if short_count = 0 then finsert ''short'' available_lanes else available_lanes);
              available_lanes = (if long_count = 0 then finsert ''long'' available_lanes else available_lanes)
          in available_lanes)"

definition can_start_correspondence_move :: "MatchmakingSlots \<Rightarrow> string fset \<Rightarrow> bool" where
  "can_start_correspondence_move s active_games =
     (if used_slots s active_games \<ge> max_games s then False
      else if \<not> enabled s then True
      else available_bot_lanes s active_games \<noteq> {||})"

text \<open>The four mutating operations as a datatype, and the run of a sequence of them.\<close>

datatype slot_op =
    ReserveGame string bool string
  | ReserveOutgoingChallenge string string
  | ConfirmGameStart string
  | Release string

fun apply_slot_op :: "slot_op \<Rightarrow> MatchmakingSlots \<Rightarrow> MatchmakingSlots" where
  "apply_slot_op (ReserveGame game_id is_bot_game speed) s = reserve_game game_id is_bot_game speed s"
| "apply_slot_op (ReserveOutgoingChallenge challenge_id speed) s = reserve_outgoing_challenge challenge_id speed s"
| "apply_slot_op (ConfirmGameStart game_id) s = confirm_game_start game_id s"
| "apply_slot_op (Release game_or_challenge_id) s = release game_or_challenge_id s"

fun run_slot_ops :: "slot_op list \<Rightarrow> MatchmakingSlots \<Rightarrow> MatchmakingSlots" where
  "run_slot_ops [] s = s"
| "run_slot_ops (operation # ops) s = run_slot_ops ops (apply_slot_op operation s)"


text \<open>
  Two properties of tracker states that every run of the operations keeps: a pending
  identifier has a reservation, and a tracker whose accounting is off stays empty.
\<close>

definition pending_reserved :: "MatchmakingSlots \<Rightarrow> bool" where
  "pending_reserved s \<longleftrightarrow>
     fset (pending_outgoing_challenges s) \<union> fset (pending_outgoing_correspondence s)
       \<subseteq> fst ` set (slot_by_game_id s)"

definition idle_when_disabled :: "MatchmakingSlots \<Rightarrow> bool" where
  "idle_when_disabled s \<longleftrightarrow>
     enabled s = (max_games s = 3) \<and>
     (\<not> enabled s \<longrightarrow> slot_by_game_id s = [] \<and> pending_outgoing_challenges s = {||}
         \<and> pending_outgoing_correspondence s = {||})"

subsection \<open>Timers\<close>

text \<open>
  Modelled from the spec: the class \<^verbatim>\<open>Timer\<close> and the unit functions of \<^verbatim>\<open>lib/timer.py\<close>,
  which is not among the sources. The spec describes a timer as a monotonic start instant
  and a duration that exposes "expired?" and "remaining", with a timer of no duration
  already expired. Durations and clock readings are integers, in microseconds (the
  resolution of \<^verbatim>\<open>datetime.timedelta\<close>). The clock reading \<open>now\<close> is a parameter of every
  function that reads the clock; the readings within one call are taken at one instant.
\<close>

record Timer =
  duration :: int
  starting_time :: int

definition seconds :: "int \<Rightarrow> int" where
  "seconds n = n * 1000000"

definition minutes :: "int \<Rightarrow> int" where
  "minutes n = seconds (60 * n)"

definition days :: "int \<Rightarrow> int" where
  "days n = seconds (86400 * n)"

definition years :: "int \<Rightarrow> int" where
  "years n = days (365 * n)"

definition Timer_init :: "int \<Rightarrow> int \<Rightarrow> Timer" where
  "Timer_init now d = \<lparr>duration = d, starting_time = now\<rparr>"

definition reset :: "int \<Rightarrow> Timer \<Rightarrow> Timer" where
  "reset now t = t\<lparr>starting_time := now\<rparr>"

definition time_since_reset :: "int \<Rightarrow> Timer \<Rightarrow> int" where
  "time_since_reset now t = now - starting_time t"

definition is_expired :: "int \<Rightarrow> Timer \<Rightarrow> bool" where
  "is_expired now t \<longleftrightarrow> time_since_reset now t \<ge> duration t"

subsection \<open>The scheduler \<^verbatim>\<open>Matchmaking\<close>\<close>

text \<open>
  Of the configuration the scheduler reads the fields below. The value configured for the
  background correspondence target is an integer, infinity, something \<^verbatim>\<open>int()\<close> rejects,
  or absent.
\<close>

datatype cfg_value = CfgInt int | CfgInf | CfgUnparsable

record Configuration =
  allow_matchmaking :: bool
  allow_during_games :: bool
  challenge_timeout :: int
  cfg_max_background_correspondence_games :: "cfg_value option"
  block_list :: "string list"

text \<open>
  Calls that leave the scheduler are recorded in a log, in the order they are made, as the
  mocks of the test suite record them: the calls to the game service (\<^verbatim>\<open>li.cancel\<close>,
  \<^verbatim>\<open>li.challenge\<close>, \<^verbatim>\<open>li.get_profile\<close>), the calls of \<^verbatim>\<open>choose_opponent\<close> and of
  \<^verbatim>\<open>should_create_challenge\<close> with their arguments, and the writes to the acceptance
  memory \<^verbatim>\<open>challenge_type_acceptable\<close>, which only opponent selection reads.
\<close>

record challenge_params =
  param_rated :: bool
  param_variant :: string
  param_days :: "int option"
  param_clock_limit :: "int option"
  param_clock_increment :: "int option"

datatype event =
    EvShouldCreateChallenge bool bool
  | EvLiCancel string
  | EvChooseOpponent "string fset option" bool
  | EvLiChallenge string challenge_params
  | EvLiGetProfile
  | EvAddChallengeFilter string string "int option"

record Matchmaking =
  matchmaking_cfg :: Configuration
  last_challenge_created_delay :: Timer
  last_game_ended_delay :: Timer
  last_user_profile_update_time :: Timer
  min_wait_time :: int
  rate_limit_timer :: Timer
  max_wait_time :: int
  challenge_id :: string
  force_immediate_challenge :: bool
  max_background_correspondence_games :: enat
  slots :: "MatchmakingSlots option"
  events :: "event list"

text \<open>
  The answer of the game service to \<^verbatim>\<open>li.challenge\<close>: a response with its \<^verbatim>\<open>id\<close> (empty when
  the key is missing) and the rate-limit keys it carries, or one of the two exceptions the
  source catches. The source casts the timeout of a rate-limited bot to a
  \<^verbatim>\<open>timedelta\<close>, so that response carries one.
\<close>

datatype response_flags = NoFlags | BotIsRateLimited int | OpponentIsRateLimited "int option"

datatype li_result = Response string response_flags | RaisesRateLimited int | RaisesOther

text \<open>
  Opponent selection draws random numbers and queries the game service, and
  \<^verbatim>\<open>li.challenge\<close> is the game service: what they answer is a parameter, which may depend
  on the whole state of the scheduler (the log included). Both calls, and \<^verbatim>\<open>li.cancel\<close>
  and \<^verbatim>\<open>li.get_profile\<close>, are taken to return.
\<close>

type_synonym opponent_choice = "string option \<times> int \<times> int \<times> int \<times> string \<times> string"

record environment =
  choose_opponent_res :: "Matchmaking \<Rightarrow> string fset option \<Rightarrow> bool \<Rightarrow> opponent_choice"
  li_challenge_res :: "Matchmaking \<Rightarrow> string \<Rightarrow> challenge_params \<Rightarrow> li_result"

definition log_event :: "event \<Rightarrow> Matchmaking \<Rightarrow> Matchmaking" where
  "log_event e m = m\<lparr>events := events m @ [e]\<rparr>"

text \<open>
  \<^verbatim>\<open>add_challenge_filter\<close> stores a timer of the given timeout, or of one day when the
  timeout is missing or zero; the log keeps the timeout as it was passed.
\<close>

definition add_challenge_filter :: "string \<Rightarrow> string \<Rightarrow> int option \<Rightarrow> Matchmaking \<Rightarrow> Matchmaking" where
  "add_challenge_filter bot_name game_aspect timeout m =
     log_event (EvAddChallengeFilter bot_name game_aspect timeout) m"

definition add_to_block_list :: "string \<Rightarrow> Matchmaking \<Rightarrow> Matchmaking" where
  "add_to_block_list bot_name m = add_challenge_filter bot_name [] (Some (years 10)) m"

definition parse_max_background_correspondence_games :: "Configuration \<Rightarrow> enat" where
  "parse_max_background_correspondence_games cfg =
     (case cfg_max_background_correspondence_games cfg of
        None \<Rightarrow> 1
      | Some CfgInf \<Rightarrow> \<infinity>
      | Some (CfgInt parsed_value) \<Rightarrow> enat (nat (max 0 parsed_value))
      | Some CfgUnparsable \<Rightarrow> 1)"

definition Matchmaking_init :: "int \<Rightarrow> Configuration \<Rightarrow> Matchmaking" where
  "Matchmaking_init now cfg =
     fold add_to_block_list (block_list cfg)
       \<lparr>matchmaking_cfg = cfg,
        last_challenge_created_delay = Timer_init now (seconds 25),
        last_game_ended_delay = Timer_init now (minutes (challenge_timeout cfg)),
        last_user_profile_update_time = Timer_init now (minutes 5),
        min_wait_time = seconds 60,
        rate_limit_timer = Timer_init now 0,
        max_wait_time = (if allow_during_games cfg then minutes 10 else years 10),
        challenge_id = [],
        force_immediate_challenge = False,
        max_background_correspondence_games = parse_max_background_correspondence_games cfg,
        slots = None,
        events = []\<rparr>"

definition set_slots :: "MatchmakingSlots \<Rightarrow> Matchmaking \<Rightarrow> Matchmaking" where
  "set_slots sl m = m\<lparr>slots := Some sl\<rparr>"

definition discard_challenge :: "string \<Rightarrow> Matchmaking \<Rightarrow> Matchmaking" where
  "discard_challenge cid m = (if challenge_id m = cid then m\<lparr>challenge_id := []\<rparr> else m)"

text \<open>
  \<^verbatim>\<open>should_create_challenge\<close>: the five conditions are computed from the state at entry; an
  outstanding challenge that has expired is then cancelled, forgotten and released (the
  tracker is optional); the result is computed from the five conditions.
  \<^verbatim>\<open>show_earliest_challenge_time\<close> only writes to the program's log. The empty string is
  written \<open>[]\<close>.
\<close>

definition should_create_challenge :: "int \<Rightarrow> bool \<Rightarrow> bool \<Rightarrow> Matchmaking \<Rightarrow> bool \<times> Matchmaking" where
  "should_create_challenge now ignore_postgame_timeout ignore_min_wait m0 =
     (let m = log_event (EvShouldCreateChallenge ignore_postgame_timeout ignore_min_wait) m0;
          matchmaking_enabled = allow_matchmaking (matchmaking_cfg m);
          postgame_ok = (ignore_postgame_timeout \<or> is_expired now (last_game_ended_delay m));
          time_has_passed = (postgame_ok \<and> is_expired now (rate_limit_timer m));
          challenge_expired = (is_expired now (last_challenge_created_delay m) \<and> challenge_id m \<noteq> []);
          min_wait_time_passed = (ignore_min_wait
             \<or> time_since_reset now (last_challenge_created_delay m) > min_wait_time m);
          m' = (if challenge_expired then
                  (let cid = challenge_id m;
                       m1 = log_event (EvLiCancel cid) m;
                       m2 = discard_challenge cid m1
                   in m2\<lparr>slots := map_option (release cid) (slots m2)\<rparr>)
                else m)
      in (matchmaking_enabled \<and> (time_has_passed \<or> challenge_expired) \<and> min_wait_time_passed, m'))"

definition handle_challenge_error_response :: "int \<Rightarrow> response_flags \<Rightarrow> string \<Rightarrow> Matchmaking \<Rightarrow> Matchmaking" where
  "handle_challenge_error_response now flags bot_name m =
     (case flags of
        BotIsRateLimited timeout \<Rightarrow> m\<lparr>rate_limit_timer := Timer_init now timeout\<rparr>
      | OpponentIsRateLimited timeout \<Rightarrow> add_challenge_filter bot_name [] timeout m
      | NoFlags \<Rightarrow> add_challenge_filter bot_name [] None m)"

text \<open>
  \<^verbatim>\<open>create_challenge\<close>. The body of its \<^verbatim>\<open>try\<close> statement, with the two handlers, is
  \<open>send_challenge\<close>: the timer of the last challenge is reset before the request is sent.
\<close>

definition send_challenge ::
  "environment \<Rightarrow> int \<Rightarrow> string \<Rightarrow> challenge_params \<Rightarrow> Matchmaking \<Rightarrow> string \<times> Matchmaking" where
  "send_challenge env now bot_name params m =
     (let m1 = m\<lparr>last_challenge_created_delay := reset now (last_challenge_created_delay m)\<rparr>;
          m2 = log_event (EvLiChallenge bot_name params) m1
      in case li_challenge_res env m1 bot_name params of
           Response cid flags \<Rightarrow>
             if cid = [] then (cid, handle_challenge_error_response now flags bot_name m2)
             else (cid, m2)
         | RaisesRateLimited timeout \<Rightarrow> ([], m2\<lparr>rate_limit_timer := Timer_init now timeout\<rparr>)
         | RaisesOther \<Rightarrow> ([], m2))"

definition create_challenge ::
  "environment \<Rightarrow> int \<Rightarrow> string \<Rightarrow> int \<Rightarrow> int \<Rightarrow> int \<Rightarrow> string \<Rightarrow> string \<Rightarrow> Matchmaking \<Rightarrow> string \<times> Matchmaking" where
  "create_challenge env now bot_name base_time increment num_days variant mode m =
     (let params = \<lparr>param_rated = (mode = ''rated''), param_variant = variant, param_days = None,
                     param_clock_limit = None, param_clock_increment = None\<rparr>
      in if num_days \<noteq> 0 then
           send_challenge env now bot_name (params\<lparr>param_days := Some num_days\<rparr>) m
         else if base_time \<noteq> 0 \<or> increment \<noteq> 0 then
           send_challenge env now bot_name
             (params\<lparr>param_clock_limit := Some base_time, param_clock_increment := Some increment\<rparr>) m
         else ([], m))"

definition update_user_profile :: "int \<Rightarrow> Matchmaking \<Rightarrow> Matchmaking" where
  "update_user_profile now m =
     (if is_expired now (last_user_profile_update_time m)
      then log_event EvLiGetProfile
             (m\<lparr>last_user_profile_update_time := reset now (last_user_profile_update_time m)\<rparr>)
      else m)"

definition choose_opponent ::
  "environment \<Rightarrow> string fset option \<Rightarrow> bool \<Rightarrow> Matchmaking \<Rightarrow> opponent_choice \<times> Matchmaking" where
  "choose_opponent env allowed_bot_lanes correspondence_only m =
     (choose_opponent_res env m allowed_bot_lanes correspondence_only,
      log_event (EvChooseOpponent allowed_bot_lanes correspondence_only) m)"

definition create_matchmaking_challenge ::
  "environment \<Rightarrow> int \<Rightarrow> string fset \<Rightarrow> string fset option \<Rightarrow> bool \<Rightarrow> Matchmaking \<Rightarrow> bool \<times> Matchmaking" where
  "create_matchmaking_challenge env now active_games allowed_bot_lanes correspondence_only m =
     (let m1 = update_user_profile now m;
          ((bot_username, base_time, increment, num_days, variant, mode), m2) =
             choose_opponent env allowed_bot_lanes correspondence_only m1
      in case bot_username of
           None \<Rightarrow> (False, m2)
         | Some bot_name \<Rightarrow>
             if bot_name = [] then (False, m2)
             else
               let speed = game_category ''standard'' base_time increment num_days
               in if (case slots m2 of None \<Rightarrow> False
                      | Some sl \<Rightarrow> \<not> can_accept_bot_speed sl speed active_games)
                  then (False, m2)
                  else
                    let (cid, m3) = create_challenge env now bot_name base_time increment
                                      num_days variant mode m2;
                        m4 = m3\<lparr>challenge_id := cid\<rparr>;
                        m5 = (if cid \<noteq> []
                              then m4\<lparr>slots := map_option (reserve_outgoing_challenge cid speed) (slots m4)\<rparr>
                              else m4)
                    in (cid \<noteq> [], m5))"

definition challenge_for_background_correspondence ::
  "environment \<Rightarrow> int \<Rightarrow> string fset \<Rightarrow> Matchmaking \<Rightarrow> bool \<times> Matchmaking" where
  "challenge_for_background_correspondence env now active_games m =
     (case slots m of
        None \<Rightarrow> (False, m)
      | Some sl \<Rightarrow>
          if \<not> enabled sl then (False, m)
          else
            let current_correspondence = correspondence_reservation_count sl
            in if enat current_correspondence \<ge> max_background_correspondence_games m then (False, m)
               else
                 let ignore_min_wait = force_immediate_challenge m;
                     m1 = m\<lparr>force_immediate_challenge := False\<rparr>;
                     (ok, m2) = should_create_challenge now True ignore_min_wait m1
                 in if \<not> ok then (False, m2)
                    else create_matchmaking_challenge env now active_games None True m2)"

text \<open>
  The top-level decision of a tick. Of the queue of incoming challenges only its emptiness
  is read.
\<close>

definition challenge ::
  "environment \<Rightarrow> int \<Rightarrow> string fset \<Rightarrow> Challenge list \<Rightarrow> int \<Rightarrow> Matchmaking \<Rightarrow> Matchmaking" where
  "challenge env now active_games challenge_queue max_games_arg m =
     (if challenge_queue \<noteq> [] then m
      else
        let (created, m1) = challenge_for_background_correspondence env now active_games m
        in if created then m1
           else
             let max_games_for_matchmaking =
                   (if allow_during_games (matchmaking_cfg m1) then max_games_arg else min 1 max_games_arg);
                 game_count = int (fcard active_games)
             in if game_count \<ge> max_games_for_matchmaking then m1
                else
                  let allowed_bot_lanes =
                        (case slots m1 of Some sl \<Rightarrow> available_bot_lanes sl active_games
                         | None \<Rightarrow> {|''short'', ''long''|})
                  in if allowed_bot_lanes = {||} then m1
                     else
                       let cooldown_while_games_active =
                             (if (case slots m1 of Some sl \<Rightarrow> enabled sl | None \<Rightarrow> False)
                              then min_wait_time m1 else max_wait_time m1)
                       in if game_count > 0
                             \<and> time_since_reset now (last_challenge_created_delay m1) < cooldown_while_games_active
                          then m1
                          else
                            let (ok, m2) = should_create_challenge now False False m1
                            in if \<not> ok then m2
                               else snd (create_matchmaking_challenge env now active_games
                                           (Some allowed_bot_lanes) False m2))"

definition game_done :: "int \<Rightarrow> Matchmaking \<Rightarrow> Matchmaking" where
  "game_done now m = m\<lparr>last_game_ended_delay := reset now (last_game_ended_delay m)\<rparr>"

definition correspondence_game_done :: "Matchmaking \<Rightarrow> Matchmaking" where
  "correspondence_game_done m = m\<lparr>force_immediate_challenge := True\<rparr>"

definition accepted_challenge :: "string \<Rightarrow> Matchmaking \<Rightarrow> Matchmaking" where
  "accepted_challenge game_id m =
     (let m1 = discard_challenge game_id m
      in m1\<lparr>slots := map_option (confirm_game_start game_id) (slots m1)\<rparr>)"

text \<open>
  The result of \<^verbatim>\<open>should_create_challenge\<close> in the words of the specification:
  matchmaking is enabled, and the post-game cooldown is satisfied or ignored and the
  rate-limit timer is expired, and the minimum spacing has elapsed or is ignored or the
  outstanding challenge had expired at entry.
\<close>

definition should_create_challenge_spec :: "int \<Rightarrow> bool \<Rightarrow> bool \<Rightarrow> Matchmaking \<Rightarrow> bool" where
  "should_create_challenge_spec now ignore_postgame_timeout ignore_min_wait m \<longleftrightarrow>
     allow_matchmaking (matchmaking_cfg m)
     \<and> ((ignore_postgame_timeout \<or> is_expired now (last_game_ended_delay m))
          \<and> is_expired now (rate_limit_timer m))
     \<and> ((ignore_min_wait \<or> time_since_reset now (last_challenge_created_delay m) > min_wait_time m)
          \<or> (is_expired now (last_challenge_created_delay m) \<and> challenge_id m \<noteq> []))"

text \<open>
  Reading the log: \<open>log_extends P m m'\<close> says that the log of \<open>m'\<close> is the log of \<open>m\<close> followed
  by events that all satisfy \<open>P\<close>.
\<close>

definition log_extends :: "(event \<Rightarrow> bool) \<Rightarrow> Matchmaking \<Rightarrow> Matchmaking \<Rightarrow> bool" where
  "log_extends P m m' \<longleftrightarrow> (\<exists>new. events m' = events m @ new \<and> list_all P new)"

fun is_choose_opponent :: "event \<Rightarrow> bool" where
  "is_choose_opponent (EvChooseOpponent lanes correspondence_only) = True"
| "is_choose_opponent e = False"

fun is_forced_check :: "event \<Rightarrow> bool" where
  "is_forced_check (EvShouldCreateChallenge ignore_postgame_timeout ignore_min_wait) = ignore_min_wait"
| "is_forced_check e = False"

text \<open>A configuration, an environment and a scheduler state used in the examples below.\<close>

definition example_cfg :: Configuration where
  "example_cfg = \<lparr>allow_matchmaking = True, allow_during_games = True, challenge_timeout = 30,
                  cfg_max_background_correspondence_games = None, block_list = []\<rparr>"

definition no_opponent_env :: environment where
  "no_opponent_env =
     \<lparr>choose_opponent_res = (\<lambda>m lanes correspondence_only. (None, 0, 0, 0, ''standard'', ''rated'')),
      li_challenge_res = (\<lambda>m bot_name params. RaisesOther)\<rparr>"

definition accepting_env :: environment where
  "accepting_env =
     \<lparr>choose_opponent_res = (\<lambda>m lanes correspondence_only.
         if correspondence_only then (Some ''other_bot'', 0, 0, 1, ''standard'', ''rated'')
         else (Some ''other_bot'', 60, 0, 0, ''standard'', ''rated'')),
      li_challenge_res = (\<lambda>m bot_name params. Response ''newid'' NoFlags)\<rparr>"

subsection \<open>Weights of the candidate opponents\<close>

text \<open>
  A profile is a dictionary with a \<^verbatim>\<open>username\<close> and, per rating category, a dictionary with
  the optional keys \<^verbatim>\<open>rating\<close> and \<^verbatim>\<open>games\<close>; a missing key reads as 0.
\<close>

record PerfType =
  perf_rating :: "int option"
  perf_games :: "int option"

record UserProfileType =
  username :: string
  perfs :: "(string \<times> PerfType) list"

definition rating :: "string \<Rightarrow> UserProfileType \<Rightarrow> int" where
  "rating game_type bot_profile =
     (case map_of (perfs bot_profile) game_type of
        None \<Rightarrow> 0
      | Some perf \<Rightarrow> (case perf_rating perf of None \<Rightarrow> 0 | Some r \<Rightarrow> r))"

definition get_weights :: "UserProfileType list \<Rightarrow> string \<Rightarrow> int \<Rightarrow> int \<Rightarrow> string \<Rightarrow> int list" where
  "get_weights online_bots rating_preference min_rating max_rating game_type =
     (if rating_preference = ''high'' then
        let reduce_ratings_by = min (min_rating - (max_rating - min_rating)) (min_rating - 1)
        in map (\<lambda>bot_profile. rating game_type bot_profile - reduce_ratings_by) online_bots
      else if rating_preference = ''low'' then
        let reduce_ratings_by = max (max_rating - (min_rating - max_rating)) (max_rating + 1)
        in map (\<lambda>bot_profile. reduce_ratings_by - rating game_type bot_profile) online_bots
      else replicate (length online_bots) 1)"

text \<open>
  The filter of \<^verbatim>\<open>choose_opponent\<close>; our own name and the block list test are parameters.
\<close>

definition is_suitable_opponent ::
  "string \<Rightarrow> (string \<Rightarrow> bool) \<Rightarrow> string \<Rightarrow> int \<Rightarrow> int \<Rightarrow> UserProfileType \<Rightarrow> bool" where
  "is_suitable_opponent own_username in_block_list game_type min_rating max_rating bot_profile =
     (let perf = (case map_of (perfs bot_profile) game_type of
                    None \<Rightarrow> \<lparr>perf_rating = None, perf_games = None\<rparr> | Some p \<Rightarrow> p);
          perf_rating_or_0 = (case perf_rating perf of None \<Rightarrow> 0 | Some r \<Rightarrow> r);
          perf_games_or_0 = (case perf_games perf of None \<Rightarrow> 0 | Some g \<Rightarrow> g)
      in username bot_profile \<noteq> own_username
         \<and> \<not> in_block_list (username bot_profile)
         \<and> perf_games_or_0 > 0
         \<and> min_rating \<le> perf_rating_or_0 \<and> perf_rating_or_0 \<le> max_rating)"

text \<open>
  The steps of \<^verbatim>\<open>challenge\<close> that follow the background correspondence step, as a
  function of their own (the lemma \<open>challenge_unfold\<close> below relates the two).
\<close>

definition realtime_step ::
  "environment \<Rightarrow> int \<Rightarrow> string fset \<Rightarrow> int \<Rightarrow> Matchmaking \<Rightarrow> Matchmaking" where
  "realtime_step env now active_games max_games_arg m1 =
     (let max_games_for_matchmaking =
            (if allow_during_games (matchmaking_cfg m1) then max_games_arg else min 1 max_games_arg);
          game_count = int (fcard active_games)
      in if game_count \<ge> max_games_for_matchmaking then m1
         else
           let allowed_bot_lanes =
                 (case slots m1 of Some sl \<Rightarrow> available_bot_lanes sl active_games
                  | None \<Rightarrow> {|''short'', ''long''|})
           in if allowed_bot_lanes = {||} then m1
              else
                let cooldown_while_games_active =
                      (if (case slots m1 of Some sl \<Rightarrow> enabled sl | None \<Rightarrow> False)
                       then min_wait_time m1 else max_wait_time m1)
                in if game_count > 0
                      \<and> time_since_reset now (last_challenge_created_delay m1) < cooldown_while_games_active
                   then m1
                   else
                     let (ok, m2) = should_create_challenge now False False m1
                     in if \<not> ok then m2
                        else snd (create_matchmaking_challenge env now active_games
                                    (Some allowed_bot_lanes) False m2))"

text \<open>
  Two scheduler states for the examples. In the first a challenge \<open>abc\<close> was sent 31 minutes
  after the start and a game ended 90 seconds later. In the second the tracker of capacity 3
  holds one correspondence game, which meets the default target of one.
\<close>

definition expired_challenge_state :: Matchmaking where
  "expired_challenge_state =
     game_done (seconds 1950)
       ((Matchmaking_init 0 example_cfg)
          \<lparr>last_challenge_created_delay := Timer_init (minutes 31) (seconds 25),
           challenge_id := ''abc''\<rparr>)"

definition at_target_slots :: MatchmakingSlots where
  "at_target_slots = reserve_game ''corr_two'' False ''correspondence'' (MatchmakingSlots_init 3)"

definition at_target_state :: Matchmaking where
  "at_target_state = set_slots at_target_slots (Matchmaking_init 0 example_cfg)"

definition below_target_state :: Matchmaking where
  "below_target_state = set_slots (MatchmakingSlots_init 3) (Matchmaking_init 0 example_cfg)"

text \<open>Two candidate opponents for the examples, rated 1000 and 2000 in blitz.\<close>

definition example_bots :: "UserProfileType list" where
  "example_bots =
     [\<lparr>username = ''weak_bot'', perfs = [(''blitz'', \<lparr>perf_rating = Some 1000, perf_games = Some 10\<rparr>)]\<rparr>,
      \<lparr>username = ''strong_bot'', perfs = [(''blitz'', \<lparr>perf_rating = Some 2000, perf_games = Some 25\<rparr>)]\<rparr>]"


section \<open>Properties of the slot tracker\<close>

lemmas slot_op_defs = reserve_game_def reserve_outgoing_challenge_def confirm_game_start_def release_def

subsection \<open>What every run of the operations keeps\<close>

lemma pending_reserved_init: "pending_reserved (MatchmakingSlots_init n)"
  by (simp add: pending_reserved_def MatchmakingSlots_init_def)

lemma pending_reserved_step: "pending_reserved s \<Longrightarrow> pending_reserved (apply_slot_op operation s)"
proof (cases operation)
  case (ReserveGame g b sp)
  assume "pending_reserved s"
  then show ?thesis unfolding ReserveGame
    by (auto simp: pending_reserved_def reserve_game_def AList.dom_update)
next
  case (ReserveOutgoingChallenge c sp)
  assume "pending_reserved s"
  then show ?thesis unfolding ReserveOutgoingChallenge
    by (auto simp: pending_reserved_def reserve_outgoing_challenge_def Let_def AList.dom_update)
next
  case (ConfirmGameStart g)
  assume "pending_reserved s"
  then show ?thesis unfolding ConfirmGameStart
    by (auto simp: pending_reserved_def confirm_game_start_def)
next
  case (Release g)
  assume "pending_reserved s"
  then show ?thesis unfolding Release
    by (auto simp: pending_reserved_def release_def AList.delete_eq) force+
qed

lemma pending_reserved_run: "pending_reserved s \<Longrightarrow> pending_reserved (run_slot_ops ops s)"
  by (induction ops arbitrary: s) (simp_all add: pending_reserved_step)

lemma idle_when_disabled_init: "idle_when_disabled (MatchmakingSlots_init n)"
  by (simp add: idle_when_disabled_def MatchmakingSlots_init_def)

lemma idle_when_disabled_step: "idle_when_disabled s \<Longrightarrow> idle_when_disabled (apply_slot_op operation s)"
  by (cases operation) (auto simp: idle_when_disabled_def slot_op_defs Let_def)

lemma idle_when_disabled_run: "idle_when_disabled s \<Longrightarrow> idle_when_disabled (run_slot_ops ops s)"
  by (induction ops arbitrary: s) (simp_all add: idle_when_disabled_step)

lemma max_games_step: "max_games (apply_slot_op operation s) = max_games s"
  by (cases operation) (auto simp: slot_op_defs Let_def)

lemma max_games_run: "max_games (run_slot_ops ops s) = max_games s"
  by (induction ops arbitrary: s) (simp_all add: max_games_step)

lemma enabled_step: "enabled (apply_slot_op operation s) = enabled s"
  by (cases operation) (auto simp: slot_op_defs Let_def)

lemma enabled_run: "enabled (run_slot_ops ops s) = enabled s"
  by (induction ops arbitrary: s) (simp_all add: enabled_step)

subsection \<open>Both bot lanes taken\<close>

lemma short_speed_lane: "speed |\<in>| BOT_SHORT_SPEEDS \<Longrightarrow>
   \<not> is_correspondence_speed speed \<and> bot_lane_for_speed speed = ''short''"
  by (auto simp: BOT_SHORT_SPEEDS_def is_correspondence_speed_def CORRESPONDENCE_SPEED_def bot_lane_for_speed_def)

lemma long_speed_lane: "speed |\<in>| BOT_LONG_SPEEDS \<Longrightarrow>
   \<not> is_correspondence_speed speed \<and> bot_lane_for_speed speed = ''long''"
  by (auto simp: BOT_LONG_SPEEDS_def BOT_SHORT_SPEEDS_def is_correspondence_speed_def CORRESPONDENCE_SPEED_def bot_lane_for_speed_def)

lemma both_lanes_state:
  assumes "short_id \<noteq> long_id" "short_speed |\<in>| BOT_SHORT_SPEEDS" "long_speed |\<in>| BOT_LONG_SPEEDS"
    and "s = run_slot_ops [ReserveOutgoingChallenge short_id short_speed,
                           ReserveOutgoingChallenge long_id long_speed] (MatchmakingSlots_init 3)
       \<or> s = run_slot_ops [ReserveOutgoingChallenge long_id long_speed,
                           ReserveOutgoingChallenge short_id short_speed] (MatchmakingSlots_init 3)"
  shows "enabled s \<and> max_games s = 3 \<and> pending_outgoing_challenges s = {|short_id, long_id|}
       \<and> bot_lane_counts s = (1, 1)"
  using assms short_speed_lane [OF assms(2)] long_speed_lane [OF assms(3)]
  by (auto simp: reserve_outgoing_challenge_def MatchmakingSlots_init_def slot_for_game_def
        bot_lane_counts_def count_slots_def Let_def)

text \<open>
  C2. A tracker of capacity 3 on which one short-speed and one long-speed outgoing bot
  challenge have been reserved (two challenges, so two identifiers, in either order) and
  nothing else: with no active game no bot lane is available, a bot challenge of any speed
  other than correspondence is refused, and a correspondence challenge is accepted.
\<close>

theorem both_bot_lanes_reserved:
  assumes "short_id \<noteq> long_id" "short_speed |\<in>| BOT_SHORT_SPEEDS" "long_speed |\<in>| BOT_LONG_SPEEDS"
    and "s = run_slot_ops [ReserveOutgoingChallenge short_id short_speed,
                           ReserveOutgoingChallenge long_id long_speed] (MatchmakingSlots_init 3)
       \<or> s = run_slot_ops [ReserveOutgoingChallenge long_id long_speed,
                           ReserveOutgoingChallenge short_id short_speed] (MatchmakingSlots_init 3)"
  shows "available_bot_lanes s {||} = {||}
       \<and> (\<forall>speed. speed \<noteq> ''correspondence'' \<longrightarrow> \<not> can_accept_bot_speed s speed {||})
       \<and> can_accept_bot_speed s ''correspondence'' {||}"
  using both_lanes_state [OF assms]
  by (simp add: available_bot_lanes_def can_accept_bot_speed_def can_accept_correspondence_def
        is_correspondence_speed_def CORRESPONDENCE_SPEED_def)

theorem both_bot_lanes_reserved_witness:
  "''a'' \<noteq> ''b'' \<and> ''bullet'' |\<in>| BOT_SHORT_SPEEDS \<and> ''classical'' |\<in>| BOT_LONG_SPEEDS
   \<and> available_bot_lanes (run_slot_ops [ReserveOutgoingChallenge ''a'' ''bullet'',
        ReserveOutgoingChallenge ''b'' ''classical''] (MatchmakingSlots_init 3)) {||} = {||}
   \<and> \<not> can_accept_bot_speed (run_slot_ops [ReserveOutgoingChallenge ''a'' ''bullet'',
        ReserveOutgoingChallenge ''b'' ''classical''] (MatchmakingSlots_init 3)) ''blitz'' {||}
   \<and> \<not> can_accept_bot_speed (run_slot_ops [ReserveOutgoingChallenge ''a'' ''bullet'',
        ReserveOutgoingChallenge ''b'' ''classical''] (MatchmakingSlots_init 3)) ''rapid'' {||}
   \<and> can_accept_bot_speed (run_slot_ops [ReserveOutgoingChallenge ''a'' ''bullet'',
        ReserveOutgoingChallenge ''b'' ''classical''] (MatchmakingSlots_init 3)) ''correspondence'' {||}"
proof -
  have h1: "''a'' \<noteq> ''b''" by simp
  have h2: "''bullet'' |\<in>| BOT_SHORT_SPEEDS" by (simp add: BOT_SHORT_SPEEDS_def)
  have h3: "''classical'' |\<in>| BOT_LONG_SPEEDS" by (simp add: BOT_LONG_SPEEDS_def)
  show ?thesis
    using h1 h2 h3 both_bot_lanes_reserved [OF h1 h2 h3 disjI1 [OF refl]]
    by simp
qed

subsection \<open>Pending identifiers are reserved\<close>

text \<open>
  C3. In every state that a sequence of \<^verbatim>\<open>reserve_game\<close>, \<^verbatim>\<open>reserve_outgoing_challenge\<close>,
  \<^verbatim>\<open>confirm_game_start\<close> and \<^verbatim>\<open>release\<close> reaches from the empty tracker (of any capacity),
  an identifier in \<^verbatim>\<open>pending_outgoing_challenges\<close> or in \<^verbatim>\<open>pending_outgoing_correspondence\<close>
  is a key of \<^verbatim>\<open>slot_by_game_id\<close>.
\<close>

theorem pending_ids_have_reservation:
  "s = run_slot_ops ops (MatchmakingSlots_init n) \<Longrightarrow>
   ident |\<in>| pending_outgoing_challenges s \<or> ident |\<in>| pending_outgoing_correspondence s \<Longrightarrow>
   ident \<in> fst ` set (slot_by_game_id s)"
  using pending_reserved_run [OF pending_reserved_init, of ops n]
  by (auto simp: pending_reserved_def)

theorem pending_ids_have_reservation_witness:
  "''c1'' |\<in>| pending_outgoing_challenges
      (run_slot_ops [ReserveOutgoingChallenge ''c1'' ''blitz'', ReserveGame ''g'' False ''rapid''] (MatchmakingSlots_init 3))
   \<and> ''c1'' \<in> fst ` set (slot_by_game_id
      (run_slot_ops [ReserveOutgoingChallenge ''c1'' ''blitz'', ReserveGame ''g'' False ''rapid''] (MatchmakingSlots_init 3)))"
proof -
  have p: "''c1'' |\<in>| pending_outgoing_challenges
      (run_slot_ops [ReserveOutgoingChallenge ''c1'' ''blitz'', ReserveGame ''g'' False ''rapid''] (MatchmakingSlots_init 3))"
    by code_simp
  show ?thesis
    using p pending_ids_have_reservation [OF refl disjI1, OF p] by simp
qed

subsection \<open>Rating categories\<close>

text \<open>
  C4. \<^verbatim>\<open>game_category\<close> returns a variant other than standard as it is, whatever the time
  control and the days; for the standard variant it returns correspondence when the days
  are positive; with no days the duration \<open>base_time + 40 * increment\<close> decides, 178 being
  bullet and 179 blitz, 478 blitz and 479 rapid, 1498 rapid and 1499 classical.
\<close>

theorem game_category_boundaries:
  "(variant \<noteq> ''standard'' \<longrightarrow> game_category variant base_time increment num_days = variant)
   \<and> (num_days > 0 \<longrightarrow> game_category ''standard'' base_time increment num_days = ''correspondence'')
   \<and> (base_time + 40 * increment = 178 \<longrightarrow> game_category ''standard'' base_time increment 0 = ''bullet'')
   \<and> (base_time + 40 * increment = 179 \<longrightarrow> game_category ''standard'' base_time increment 0 = ''blitz'')
   \<and> (base_time + 40 * increment = 478 \<longrightarrow> game_category ''standard'' base_time increment 0 = ''blitz'')
   \<and> (base_time + 40 * increment = 479 \<longrightarrow> game_category ''standard'' base_time increment 0 = ''rapid'')
   \<and> (base_time + 40 * increment = 1498 \<longrightarrow> game_category ''standard'' base_time increment 0 = ''rapid'')
   \<and> (base_time + 40 * increment = 1499 \<longrightarrow> game_category ''standard'' base_time increment 0 = ''classical'')
   \<and> game_category ''chess960'' 0 0 14 = ''chess960''"
  by (simp add: game_category_def Let_def)

theorem game_category_boundaries_witness:
  "''atomic'' \<noteq> ''standard'' \<and> game_category ''atomic'' 1800 20 1 = ''atomic''
   \<and> (2::int) > 0 \<and> game_category ''standard'' 1800 20 2 = ''correspondence''
   \<and> (59::int) + 40 * 3 = 179 \<and> game_category ''standard'' 59 3 0 = ''blitz''
   \<and> (58::int) + 40 * 3 = 178 \<and> game_category ''standard'' 58 3 0 = ''bullet''
   \<and> (1499::int) + 40 * 0 = 1499 \<and> game_category ''standard'' 1499 0 0 = ''classical''"
  using game_category_boundaries [of "''atomic''" 1800 20 1]
    game_category_boundaries [of "''standard''" 1800 20 2]
    game_category_boundaries [of "''standard''" 59 3 0]
    game_category_boundaries [of "''standard''" 58 3 0]
    game_category_boundaries [of "''standard''" 1499 0 0]
  by simp

subsection \<open>Capacities other than three\<close>

lemma disabled_queries:
  assumes "\<not> enabled s"
  shows "used_slots s A = int (fcard A)"
    and "can_accept_human s A \<longleftrightarrow> int (fcard A) < max_games s"
    and "can_accept_correspondence s A \<longleftrightarrow> int (fcard A) < max_games s"
    and "can_accept_bot_speed s speed A \<longleftrightarrow> int (fcard A) < max_games s"
    and "can_accept_challenge s incoming A \<longleftrightarrow> int (fcard A) < max_games s"
    and "available_bot_lanes s A = (if int (fcard A) < max_games s then {|''short'', ''long''|} else {||})"
    and "can_start_correspondence_move s A \<longleftrightarrow> int (fcard A) < max_games s"
  using assms
  by (auto simp: used_slots_def can_accept_human_def can_accept_correspondence_def
        can_accept_bot_speed_def can_accept_challenge_def available_bot_lanes_def
        can_start_correspondence_move_def)

text \<open>
  C5. A tracker built with a capacity \<open>n\<close> other than 3 has accounting off, and so has
  every state it reaches; there \<^verbatim>\<open>used_slots\<close> is the number of active games, each of
  \<^verbatim>\<open>can_accept_human\<close>, \<^verbatim>\<open>can_accept_correspondence\<close>, \<^verbatim>\<open>can_accept_bot_speed\<close>,
  \<^verbatim>\<open>can_accept_challenge\<close> and \<^verbatim>\<open>can_start_correspondence_move\<close> holds exactly when fewer
  than \<open>n\<close> games are active, whatever the speed or the challenger, and
  \<^verbatim>\<open>available_bot_lanes\<close> is both lanes then and no lane otherwise.
\<close>

theorem single_pool_unless_three:
  assumes "n \<noteq> 3" and "s = run_slot_ops ops (MatchmakingSlots_init n)"
  shows "\<not> enabled (MatchmakingSlots_init n) \<and> \<not> enabled s
       \<and> used_slots s A = int (fcard A)
       \<and> (can_accept_human s A \<longleftrightarrow> int (fcard A) < n)
       \<and> (can_accept_correspondence s A \<longleftrightarrow> int (fcard A) < n)
       \<and> (can_accept_bot_speed s speed A \<longleftrightarrow> int (fcard A) < n)
       \<and> (can_accept_challenge s incoming A \<longleftrightarrow> int (fcard A) < n)
       \<and> available_bot_lanes s A = (if int (fcard A) < n then {|''short'', ''long''|} else {||})
       \<and> (can_start_correspondence_move s A \<longleftrightarrow> int (fcard A) < n)"
proof -
  have dis: "\<not> enabled s" and mg: "max_games s = n"
    using assms by (simp_all add: enabled_run max_games_run MatchmakingSlots_init_def)
  have "\<not> enabled (MatchmakingSlots_init n)"
    using assms(1) by (simp add: MatchmakingSlots_init_def)
  then show ?thesis
    using disabled_queries [OF dis] mg dis by simp
qed

theorem single_pool_unless_three_witness:
  "(2::int) \<noteq> 3
   \<and> \<not> enabled (run_slot_ops [ReserveGame ''g'' True ''blitz''] (MatchmakingSlots_init 2))
   \<and> can_accept_bot_speed (run_slot_ops [ReserveGame ''g'' True ''blitz''] (MatchmakingSlots_init 2)) ''bullet'' {|''g''|}
   \<and> \<not> can_accept_human (run_slot_ops [ReserveGame ''g'' True ''blitz''] (MatchmakingSlots_init 2)) {|''g'', ''h''|}"
proof -
  have h: "(2::int) \<noteq> 3" by simp
  have c1: "int (fcard {|''g''|}) < 2" by (simp add: fcard_finsert_if)
  have c2: "\<not> int (fcard {|''g'', ''h''|}) < 2" by (simp add: fcard_finsert_if)
  show ?thesis
    using h c1 c2
      single_pool_unless_three [OF h refl, of "[ReserveGame ''g'' True ''blitz'']" "{|''g''|}" "''bullet''"]
      single_pool_unless_three [OF h refl, of "[ReserveGame ''g'' True ''blitz'']" "{|''g'', ''h''|}"]
    by blast
qed

subsection \<open>Used slots\<close>

lemma used_slots_union:
  "enabled s \<Longrightarrow> used_slots s A = int (fcard (A |\<union>| pending_outgoing_challenges s))"
proof -
  assume en: "enabled s"
  let ?P = "pending_outgoing_challenges s"
  have eq: "ffilter (\<lambda>c. c |\<notin>| A) ?P = ?P |-| A" by auto
  have "A |\<inter>| (?P |-| A) = {||}" by auto
  then have "fcard (A |\<union>| (?P |-| A)) = fcard A + fcard (?P |-| A)"
    by (rule fcard_funion_disjoint)
  then show ?thesis using en by (simp add: used_slots_def eq)
qed

lemma used_slots_split:
  "enabled s \<Longrightarrow> used_slots s A = int (fcard A) + int (fcard (pending_outgoing_challenges s |-| A))"
proof -
  assume en: "enabled s"
  have eq: "ffilter (\<lambda>c. c |\<notin>| A) (pending_outgoing_challenges s) = pending_outgoing_challenges s |-| A" by auto
  show ?thesis using en by (simp add: used_slots_def eq)
qed

text \<open>
  C6. In every state of the tracker and for every set of active games, \<^verbatim>\<open>used_slots\<close> is
  the number of active games plus the number of pending real-time challenges that are not
  active; that is the size of the union, each identifier counted once; the pending
  correspondence challenges do not enter it; and it is the number of active games when
  accounting is off.
\<close>

theorem used_slots_counts_each_id_once:
  assumes "s = run_slot_ops ops (MatchmakingSlots_init n)"
  shows "used_slots s A = int (fcard A) + int (fcard (pending_outgoing_challenges s |-| A))
       \<and> used_slots s A = int (fcard (A |\<union>| pending_outgoing_challenges s))
       \<and> used_slots (s\<lparr>pending_outgoing_correspondence := X\<rparr>) A = used_slots s A
       \<and> (\<not> enabled s \<longrightarrow> used_slots s A = int (fcard A))"
proof -
  have idle: "idle_when_disabled s"
    unfolding assms by (rule idle_when_disabled_run [OF idle_when_disabled_init])
  show ?thesis
  proof (cases "enabled s")
    case True
    then show ?thesis
      using used_slots_split [of s A] used_slots_union [of s A]
      by (simp add: used_slots_def)
  next
    case False
    then have "pending_outgoing_challenges s = {||}"
      using idle by (simp add: idle_when_disabled_def)
    then show ?thesis using False by (simp add: used_slots_def)
  qed
qed

theorem used_slots_counts_each_id_once_witness:
  "used_slots (run_slot_ops [ReserveOutgoingChallenge ''a'' ''blitz'',
       ReserveOutgoingChallenge ''c'' ''correspondence''] (MatchmakingSlots_init 3)) {|''a'', ''b''|} = 2
   \<and> used_slots (run_slot_ops [ReserveOutgoingChallenge ''a'' ''blitz'',
       ReserveOutgoingChallenge ''c'' ''correspondence''] (MatchmakingSlots_init 3)) {|''b''|} = 2"
proof -
  let ?S = "run_slot_ops [ReserveOutgoingChallenge ''a'' ''blitz'',
       ReserveOutgoingChallenge ''c'' ''correspondence''] (MatchmakingSlots_init 3)"
  have p: "pending_outgoing_challenges ?S = {|''a''|}"
    by code_simp
  have c1: "fcard ({|''a'', ''b''|} |\<union>| {|''a''|}) = 2" by code_simp
  have c2: "fcard ({|''b''|} |\<union>| {|''a''|}) = 2" by code_simp
  have u1: "used_slots ?S {|''a'', ''b''|} = int (fcard ({|''a'', ''b''|} |\<union>| pending_outgoing_challenges ?S))"
    using used_slots_counts_each_id_once [OF refl, of "[ReserveOutgoingChallenge ''a'' ''blitz'',
         ReserveOutgoingChallenge ''c'' ''correspondence'']" 3 "{|''a'', ''b''|}"]
    by blast
  have u2: "used_slots ?S {|''b''|} = int (fcard ({|''b''|} |\<union>| pending_outgoing_challenges ?S))"
    using used_slots_counts_each_id_once [OF refl, of "[ReserveOutgoingChallenge ''a'' ''blitz'',
         ReserveOutgoingChallenge ''c'' ''correspondence'']" 3 "{|''b''|}"]
    by blast
  have r1: "used_slots ?S {|''a'', ''b''|} = 2" unfolding u1 p c1 by simp
  have r2: "used_slots ?S {|''b''|} = 2" unfolding u2 p c2 by simp
  show ?thesis using r1 r2 by blast
qed

subsection \<open>Release\<close>

lemma release_unreserved:
  "ident \<notin> fst ` set (slot_by_game_id s) \<Longrightarrow> ident |\<notin>| pending_outgoing_challenges s \<Longrightarrow>
   ident |\<notin>| pending_outgoing_correspondence s \<Longrightarrow> release ident s = s"
  by (simp add: release_def fminus_triv)

lemma release_idem: "release ident (release ident s) = release ident s"
  by (simp add: release_def AList.delete_idem)

lemma release_reserve_game:
  assumes "ident \<notin> fst ` set (slot_by_game_id s)" "ident |\<notin>| pending_outgoing_challenges s"
    "ident |\<notin>| pending_outgoing_correspondence s"
  shows "release ident (reserve_game ident is_bot_game speed s) = s"
  using assms by (simp add: release_def reserve_game_def AList.delete_update_same fminus_triv)

lemma release_reserve_outgoing_challenge:
  assumes "ident \<notin> fst ` set (slot_by_game_id s)" "ident |\<notin>| pending_outgoing_challenges s"
    "ident |\<notin>| pending_outgoing_correspondence s"
  shows "release ident (reserve_outgoing_challenge ident speed s) = s"
  using assms
  by (simp add: release_def reserve_outgoing_challenge_def Let_def AList.delete_update_same fminus_triv)

text \<open>
  C9, as stated, fails where the identifier already holds a reservation: an outgoing
  challenge \<open>g\<close> is pending, the game \<open>g\<close> it became is reserved and then released; the
  reservation and the pending mark that were there before the reservation are gone.
\<close>

theorem release_after_reserve_counterexample:
  "slot_by_game_id (release ''g'' (reserve_game ''g'' True ''blitz''
       (reserve_outgoing_challenge ''g'' ''blitz'' (MatchmakingSlots_init 3))))
   \<noteq> slot_by_game_id (reserve_outgoing_challenge ''g'' ''blitz'' (MatchmakingSlots_init 3))
 \<and> pending_outgoing_challenges (release ''g'' (reserve_game ''g'' True ''blitz''
       (reserve_outgoing_challenge ''g'' ''blitz'' (MatchmakingSlots_init 3))))
   \<noteq> pending_outgoing_challenges (reserve_outgoing_challenge ''g'' ''blitz'' (MatchmakingSlots_init 3))"
  by (auto simp: release_def reserve_game_def reserve_outgoing_challenge_def MatchmakingSlots_init_def
        slot_for_game_def is_correspondence_speed_def CORRESPONDENCE_SPEED_def Let_def)

text \<open>
  C9, amended. In every state of the tracker: releasing an identifier that has no
  reservation changes nothing; releasing twice is releasing once; and reserving an
  identifier that has no reservation (as a game or as an outgoing challenge) and then
  releasing it gives back the state before the reservation, so the lanes available are
  those available before.
\<close>

theorem release_laws:
  assumes "s = run_slot_ops ops (MatchmakingSlots_init n)"
  shows "(ident \<notin> fst ` set (slot_by_game_id s) \<longrightarrow> release ident s = s)
       \<and> release ident (release ident s) = release ident s
       \<and> (ident \<notin> fst ` set (slot_by_game_id s) \<longrightarrow>
            release ident (reserve_game ident is_bot_game speed s) = s
          \<and> release ident (reserve_outgoing_challenge ident speed s) = s
          \<and> available_bot_lanes (release ident (reserve_outgoing_challenge ident speed s)) A
              = available_bot_lanes s A)"
proof -
  have inv: "pending_reserved s"
    unfolding assms by (rule pending_reserved_run [OF pending_reserved_init])
  have fresh: "ident |\<notin>| pending_outgoing_challenges s \<and> ident |\<notin>| pending_outgoing_correspondence s"
    if "ident \<notin> fst ` set (slot_by_game_id s)"
    using inv that by (auto simp: pending_reserved_def)
  show ?thesis
    using fresh release_unreserved [of ident s] release_idem [of ident s]
      release_reserve_game [of ident s is_bot_game speed]
      release_reserve_outgoing_challenge [of ident s speed]
    by auto
qed

theorem release_laws_witness:
  "''h'' \<notin> fst ` set (slot_by_game_id (run_slot_ops [ReserveGame ''g'' True ''blitz''] (MatchmakingSlots_init 3)))
   \<and> release ''h'' (run_slot_ops [ReserveGame ''g'' True ''blitz''] (MatchmakingSlots_init 3))
       = run_slot_ops [ReserveGame ''g'' True ''blitz''] (MatchmakingSlots_init 3)
   \<and> release ''h'' (reserve_game ''h'' True ''rapid''
         (run_slot_ops [ReserveGame ''g'' True ''blitz''] (MatchmakingSlots_init 3)))
       = run_slot_ops [ReserveGame ''g'' True ''blitz''] (MatchmakingSlots_init 3)
   \<and> available_bot_lanes (reserve_game ''h'' True ''rapid''
         (run_slot_ops [ReserveGame ''g'' True ''blitz''] (MatchmakingSlots_init 3))) {||} = {||}
   \<and> available_bot_lanes (release ''h'' (reserve_game ''h'' True ''rapid''
         (run_slot_ops [ReserveGame ''g'' True ''blitz''] (MatchmakingSlots_init 3)))) {||} = {|''long''|}"
proof -
  have h: "''h'' \<notin> fst ` set (slot_by_game_id (run_slot_ops [ReserveGame ''g'' True ''blitz''] (MatchmakingSlots_init 3)))"
    by (simp add: reserve_game_def MatchmakingSlots_init_def)
  have full: "available_bot_lanes (reserve_game ''h'' True ''rapid''
         (run_slot_ops [ReserveGame ''g'' True ''blitz''] (MatchmakingSlots_init 3))) {||} = {||}"
    by code_simp
  have free: "available_bot_lanes (run_slot_ops [ReserveGame ''g'' True ''blitz''] (MatchmakingSlots_init 3)) {||} = {|''long''|}"
    by code_simp
  show ?thesis
    using h full free
      release_laws [OF refl, of "''h''" "[ReserveGame ''g'' True ''blitz'']" 3 True "''rapid''"]
    by simp
qed


section \<open>Properties of the scheduler\<close>

lemma challenge_unfold:
  "challenge env now active_games challenge_queue max_games_arg m =
     (if challenge_queue \<noteq> [] then m
      else let (created, m1) = challenge_for_background_correspondence env now active_games m
           in if created then m1 else realtime_step env now active_games max_games_arg m1)"
  unfolding challenge_def realtime_step_def by (rule refl)

lemma log_extends_refl: "log_extends P m m"
  by (simp add: log_extends_def)

lemma log_extends_trans: "log_extends P m m' \<Longrightarrow> log_extends P m' m'' \<Longrightarrow> log_extends P m m''"
  by (auto simp: log_extends_def)

lemma log_extends_mono: "log_extends P m m' \<Longrightarrow> (\<And>e. P e \<Longrightarrow> Q e) \<Longrightarrow> log_extends Q m m'"
  by (auto simp: log_extends_def list_all_iff)

lemma log_extends_log_event: "P e \<Longrightarrow> log_extends P m (log_event e m)"
  by (simp add: log_extends_def log_event_def)

lemma log_extends_same_events: "events m' = events m \<Longrightarrow> log_extends P m m'"
  by (simp add: log_extends_def)

lemma force_log_event: "force_immediate_challenge (log_event e m) = force_immediate_challenge m"
  by (simp add: log_event_def)

subsection \<open>The log and the flag through \<^verbatim>\<open>should_create_challenge\<close>\<close>

lemma should_create_challenge_events:
  "\<exists>rest. events (snd (should_create_challenge now a b m))
            = events m @ EvShouldCreateChallenge a b # rest
          \<and> list_all (\<lambda>e. \<not> is_choose_opponent e \<and> \<not> is_forced_check e) rest"
  by (simp add: should_create_challenge_def Let_def log_event_def discard_challenge_def)

lemma should_create_challenge_log:
  "log_extends (\<lambda>e. \<not> is_choose_opponent e \<and> (is_forced_check e \<longrightarrow> b)) m
     (snd (should_create_challenge now a b m))"
  by (simp add: should_create_challenge_def Let_def log_event_def discard_challenge_def log_extends_def)

lemma should_create_challenge_force:
  "force_immediate_challenge (snd (should_create_challenge now a b m)) = force_immediate_challenge m"
  by (simp add: should_create_challenge_def Let_def log_event_def discard_challenge_def)

subsection \<open>The log and the flag through \<^verbatim>\<open>create_matchmaking_challenge\<close>\<close>

lemma send_challenge_log:
  "log_extends (\<lambda>e. \<not> is_choose_opponent e \<and> \<not> is_forced_check e) m (snd (send_challenge env now n p m))"
  by (simp add: send_challenge_def Let_def log_event_def log_extends_def handle_challenge_error_response_def
      add_challenge_filter_def split: li_result.splits response_flags.splits)

lemma send_challenge_force:
  "force_immediate_challenge (snd (send_challenge env now n p m)) = force_immediate_challenge m"
  by (simp add: send_challenge_def Let_def log_event_def handle_challenge_error_response_def
      add_challenge_filter_def split: li_result.splits response_flags.splits)

lemma create_challenge_log:
  "log_extends (\<lambda>e. \<not> is_choose_opponent e \<and> \<not> is_forced_check e) m
     (snd (create_challenge env now n bt inc d v mo m))"
  by (simp add: create_challenge_def Let_def send_challenge_log log_extends_refl)

lemma create_challenge_force:
  "force_immediate_challenge (snd (create_challenge env now n bt inc d v mo m)) = force_immediate_challenge m"
  by (simp add: create_challenge_def Let_def send_challenge_force)

lemma update_user_profile_log:
  "log_extends (\<lambda>e. \<not> is_choose_opponent e \<and> \<not> is_forced_check e) m (update_user_profile now m)"
  by (simp add: update_user_profile_def log_extends_def log_event_def)

lemma update_user_profile_force:
  "force_immediate_challenge (update_user_profile now m) = force_immediate_challenge m"
  by (simp add: update_user_profile_def log_event_def)

lemma create_matchmaking_challenge_cases:
  fixes env now A lanes co m
  defines "m2 \<equiv> snd (choose_opponent env lanes co (update_user_profile now m))"
  shows "snd (create_matchmaking_challenge env now A lanes co m) = m2
       \<or> (\<exists>n bt inc d v mo.
            events (snd (create_matchmaking_challenge env now A lanes co m))
              = events (snd (create_challenge env now n bt inc d v mo m2))
          \<and> force_immediate_challenge (snd (create_matchmaking_challenge env now A lanes co m))
              = force_immediate_challenge (snd (create_challenge env now n bt inc d v mo m2)))"
proof -
  obtain u bt inc d v mo where ch:
    "choose_opponent_res env (update_user_profile now m) lanes co = (u, bt, inc, d, v, mo)"
    by (rule prod_cases6)
  have sel: "choose_opponent env lanes co (update_user_profile now m) = ((u, bt, inc, d, v, mo), m2)"
    by (simp add: choose_opponent_def ch m2_def)
  show ?thesis
  proof (cases u)
    case None
    then show ?thesis by (simp add: create_matchmaking_challenge_def Let_def sel)
  next
    case (Some n)
    obtain cid m3 where cc: "create_challenge env now n bt inc d
        v mo m2 = (cid, m3)"
      by (rule prod.exhaust)
    have "events (snd (create_matchmaking_challenge env now A lanes co m)) = events m3
          \<and> force_immediate_challenge (snd (create_matchmaking_challenge env now A lanes co m))
              = force_immediate_challenge m3"
      if "snd (create_matchmaking_challenge env now A lanes co m) \<noteq> m2"
      using that
      by (simp add: create_matchmaking_challenge_def Let_def sel Some cc split: if_splits)
    then show ?thesis using cc by (metis snd_conv)
  qed
qed

lemma create_matchmaking_challenge_log:
  "log_extends (\<lambda>e. (is_choose_opponent e \<longrightarrow> e = EvChooseOpponent lanes co) \<and> \<not> is_forced_check e) m
     (snd (create_matchmaking_challenge env now A lanes co m))"
proof -
  let ?P = "\<lambda>e. (is_choose_opponent e \<longrightarrow> e = EvChooseOpponent lanes co) \<and> \<not> is_forced_check e"
  let ?m1 = "update_user_profile now m"
  let ?m2 = "snd (choose_opponent env lanes co ?m1)"
  have a: "log_extends ?P m ?m1"
    by (rule log_extends_mono [OF update_user_profile_log]) simp
  have b: "log_extends ?P ?m1 ?m2"
    by (simp add: choose_opponent_def log_extends_log_event)
  have ab: "log_extends ?P m ?m2" by (rule log_extends_trans [OF a b])
  have c: "log_extends ?P ?m2 (snd (create_challenge env now n bt inc d v mo ?m2))" for n bt inc d v mo
    by (rule log_extends_mono [OF create_challenge_log]) simp
  have d: "log_extends ?P m (snd (create_challenge env now n bt inc d v mo ?m2))" for n bt inc d v mo
    by (rule log_extends_trans [OF ab c])
  show ?thesis
    using create_matchmaking_challenge_cases [of env now A lanes co m] ab d
    by (auto simp: log_extends_def)
qed

lemma create_matchmaking_challenge_force:
  "force_immediate_challenge (snd (create_matchmaking_challenge env now A lanes co m))
     = force_immediate_challenge m"
proof -
  have "force_immediate_challenge (snd (choose_opponent env lanes co (update_user_profile now m)))
          = force_immediate_challenge m"
    by (simp add: choose_opponent_def force_log_event update_user_profile_force)
  then show ?thesis
    using create_matchmaking_challenge_cases [of env now A lanes co m]
    by (auto simp: create_challenge_force)
qed

subsection \<open>The log and the flag through the real-time steps\<close>

lemma realtime_step_cases:
  "realtime_step env now A mg m = m
   \<or> realtime_step env now A mg m = snd (should_create_challenge now False False m)
   \<or> (\<exists>lanes. realtime_step env now A mg m
         = snd (create_matchmaking_challenge env now A (Some lanes) False
                  (snd (should_create_challenge now False False m))))"
  by (cases "should_create_challenge now False False m") (auto simp: realtime_step_def Let_def)

lemma realtime_step_log:
  "log_extends (\<lambda>e. (is_choose_opponent e \<longrightarrow> (\<exists>lanes. e = EvChooseOpponent (Some lanes) False))
                    \<and> \<not> is_forced_check e) m
     (realtime_step env now A mg m)"
proof -
  let ?P = "\<lambda>e. (is_choose_opponent e \<longrightarrow> (\<exists>lanes. e = EvChooseOpponent (Some lanes) False))
                    \<and> \<not> is_forced_check e"
  let ?m2 = "snd (should_create_challenge now False False m)"
  have a: "log_extends ?P m ?m2"
    by (rule log_extends_mono [OF should_create_challenge_log]) simp
  have b: "log_extends ?P ?m2 (snd (create_matchmaking_challenge env now A (Some lanes) False ?m2))" for lanes
    by (rule log_extends_mono [OF create_matchmaking_challenge_log]) auto
  have c: "log_extends ?P m (snd (create_matchmaking_challenge env now A (Some lanes) False ?m2))" for lanes
    by (rule log_extends_trans [OF a b])
  from realtime_step_cases [of env now A mg m] show ?thesis
  proof (elim disjE exE)
    assume "realtime_step env now A mg m = m"
    then show ?thesis by (simp add: log_extends_refl)
  next
    assume "realtime_step env now A mg m = ?m2"
    then show ?thesis using a by simp
  next
    fix lanes
    assume "realtime_step env now A mg m
      = snd (create_matchmaking_challenge env now A (Some lanes) False ?m2)"
    then show ?thesis using c [of lanes] by simp
  qed
qed

lemma realtime_step_force:
  "force_immediate_challenge (realtime_step env now A mg m) = force_immediate_challenge m"
  using realtime_step_cases [of env now A mg m]
  by (auto simp: should_create_challenge_force create_matchmaking_challenge_force)

lemma realtime_step_full:
  "int (fcard A) \<ge> (if allow_during_games (matchmaking_cfg m) then mg else min 1 mg)
   \<Longrightarrow> realtime_step env now A mg m = m"
  by (simp add: realtime_step_def Let_def)


subsection \<open>The result of \<^verbatim>\<open>should_create_challenge\<close>\<close>

text \<open>
  C1, as stated, fails: matchmaking is enabled, a game ended 10 seconds ago (the post-game
  cooldown of 30 minutes is running), and the outstanding challenge \<open>abc\<close> was sent 100 seconds
  ago, so that it has expired and the minimum spacing of 60 seconds has elapsed. The code
  returns true; the stated condition, which asks for the post-game cooldown in every case,
  is false.
\<close>

theorem should_create_challenge_counterexample:
  "fst (should_create_challenge (seconds 1960) False False expired_challenge_state)
   \<and> \<not> should_create_challenge_spec (seconds 1960) False False expired_challenge_state"
  by code_simp

text \<open>
  C1, amended. For every state and every pair of flags \<^verbatim>\<open>should_create_challenge\<close> returns
  true if and only if matchmaking is enabled, and the post-game cooldown is satisfied or
  ignored and the rate-limit timer is expired, or else the outstanding challenge had
  expired at entry, and the minimum spacing since the last challenge has elapsed or is
  ignored. The expired challenge stands in for the two cooldowns, not for the spacing.
\<close>

theorem should_create_challenge_result:
  "fst (should_create_challenge now ignore_postgame_timeout ignore_min_wait m) \<longleftrightarrow>
     allow_matchmaking (matchmaking_cfg m)
     \<and> (((ignore_postgame_timeout \<or> is_expired now (last_game_ended_delay m))
           \<and> is_expired now (rate_limit_timer m))
          \<or> (is_expired now (last_challenge_created_delay m) \<and> challenge_id m \<noteq> []))
     \<and> (ignore_min_wait \<or> time_since_reset now (last_challenge_created_delay m) > min_wait_time m)"
  by (simp add: should_create_challenge_def Let_def log_event_def)

theorem should_create_challenge_result_witness:
  "fst (should_create_challenge (seconds 1960) False False expired_challenge_state)
   \<and> \<not> fst (should_create_challenge (seconds 1900) False False expired_challenge_state)"
proof -
  have a: "allow_matchmaking (matchmaking_cfg expired_challenge_state)" by code_simp
  have b: "\<not> is_expired (seconds 1960) (last_game_ended_delay expired_challenge_state)" by code_simp
  have c: "is_expired (seconds 1960) (last_challenge_created_delay expired_challenge_state)" by code_simp
  have d: "challenge_id expired_challenge_state \<noteq> []" by code_simp
  have e: "time_since_reset (seconds 1960) (last_challenge_created_delay expired_challenge_state)
            > min_wait_time expired_challenge_state" by code_simp
  have f: "\<not> time_since_reset (seconds 1900) (last_challenge_created_delay expired_challenge_state)
            > min_wait_time expired_challenge_state" by code_simp
  show ?thesis
    using a b c d e f
      should_create_challenge_result [of "seconds 1960" False False expired_challenge_state]
      should_create_challenge_result [of "seconds 1900" False False expired_challenge_state]
    by blast
qed

subsection \<open>The log and the flag through a tick\<close>

lemma background_at_target:
  assumes "slots m = Some sl"
    and "max_background_correspondence_games m \<le> enat (correspondence_reservation_count sl)"
  shows "challenge_for_background_correspondence env now A m = (False, m)"
  using assms by (simp add: challenge_for_background_correspondence_def Let_def)

lemma background_cases:
  "challenge_for_background_correspondence env now A m = (False, m)
   \<or> (\<exists>sl. slots m = Some sl \<and> enabled sl
         \<and> enat (correspondence_reservation_count sl) < max_background_correspondence_games m
         \<and> (let m2 = snd (should_create_challenge now True (force_immediate_challenge m)
                            (m\<lparr>force_immediate_challenge := False\<rparr>))
            in challenge_for_background_correspondence env now A m = (False, m2)
             \<or> challenge_for_background_correspondence env now A m
                 = create_matchmaking_challenge env now A None True m2))"
  by (cases "should_create_challenge now True (force_immediate_challenge m)
               (m\<lparr>force_immediate_challenge := False\<rparr>)")
     (auto simp: challenge_for_background_correspondence_def Let_def split: option.splits)

lemma background_below_target:
  assumes "slots m = Some sl" "enabled sl"
    and "enat (correspondence_reservation_count sl) < max_background_correspondence_games m"
  shows "let m2 = snd (should_create_challenge now True (force_immediate_challenge m)
                            (m\<lparr>force_immediate_challenge := False\<rparr>))
         in challenge_for_background_correspondence env now A m = (False, m2)
          \<or> challenge_for_background_correspondence env now A m
              = create_matchmaking_challenge env now A None True m2"
  using assms background_cases [of env now A m]
  by (cases "should_create_challenge now True (force_immediate_challenge m)
               (m\<lparr>force_immediate_challenge := False\<rparr>)")
     (auto simp: challenge_for_background_correspondence_def Let_def)

lemma background_log:
  "log_extends (\<lambda>e. is_forced_check e \<longrightarrow> force_immediate_challenge m) m
     (snd (challenge_for_background_correspondence env now A m))"
proof -
  let ?P = "\<lambda>e. is_forced_check e \<longrightarrow> force_immediate_challenge m"
  let ?m1 = "m\<lparr>force_immediate_challenge := False\<rparr>"
  let ?m2 = "snd (should_create_challenge now True (force_immediate_challenge m) ?m1)"
  have a: "log_extends ?P ?m1 ?m2"
    by (rule log_extends_mono [OF should_create_challenge_log]) simp
  have a': "log_extends ?P m ?m2"
    using a by (simp add: log_extends_def)
  have b: "log_extends ?P ?m2 (snd (create_matchmaking_challenge env now A None True ?m2))"
    by (rule log_extends_mono [OF create_matchmaking_challenge_log]) simp
  have c: "log_extends ?P m (snd (create_matchmaking_challenge env now A None True ?m2))"
    by (rule log_extends_trans [OF a' b])
  show ?thesis
    using background_cases [of env now A m] a' c
    by (auto simp: Let_def log_extends_refl)
qed

lemma background_force:
  "force_immediate_challenge (snd (challenge_for_background_correspondence env now A m))
   \<Longrightarrow> force_immediate_challenge m"
  using background_cases [of env now A m]
  by (auto simp: Let_def should_create_challenge_force create_matchmaking_challenge_force)

lemma challenge_cases:
  "challenge env now A q mg m = m
   \<or> challenge env now A q mg m = snd (challenge_for_background_correspondence env now A m)
   \<or> challenge env now A q mg m
       = realtime_step env now A mg (snd (challenge_for_background_correspondence env now A m))"
  by (cases "challenge_for_background_correspondence env now A m") (auto simp: challenge_unfold)

lemma challenge_log:
  "log_extends (\<lambda>e. is_forced_check e \<longrightarrow> force_immediate_challenge m) m (challenge env now A q mg m)"
proof -
  let ?P = "\<lambda>e. is_forced_check e \<longrightarrow> force_immediate_challenge m"
  let ?b = "snd (challenge_for_background_correspondence env now A m)"
  have a: "log_extends ?P m ?b" by (rule background_log)
  have b: "log_extends ?P ?b (realtime_step env now A mg ?b)"
    by (rule log_extends_mono [OF realtime_step_log]) simp
  have c: "log_extends ?P m (realtime_step env now A mg ?b)"
    by (rule log_extends_trans [OF a b])
  show ?thesis
    using challenge_cases [of env now A q mg m] a c
    by (auto simp: log_extends_refl)
qed

lemma challenge_force:
  "force_immediate_challenge (challenge env now A q mg m) \<Longrightarrow> force_immediate_challenge m"
  using challenge_cases [of env now A q mg m] background_force [of env now A m]
  by (auto simp: realtime_step_force)

subsection \<open>Opponent selection when the correspondence target is met\<close>

text \<open>
  C7, as stated, fails: the tracker of capacity 3 holds one correspondence game, which
  meets the target of one, no game is active and the cooldowns have passed. The tick skips
  the background step and goes on to the real-time steps, which call \<^verbatim>\<open>choose_opponent\<close>
  for the two open bot lanes.
\<close>

theorem opponent_selection_at_target_counterexample:
  "max_background_correspondence_games at_target_state
     \<le> enat (correspondence_reservation_count at_target_slots)
   \<and> slots at_target_state = Some at_target_slots
   \<and> events (challenge no_opponent_env (minutes 31) {||} [] 3 at_target_state)
       = [EvShouldCreateChallenge False False, EvLiGetProfile,
          EvChooseOpponent (Some {|''short'', ''long''|}) False]"
  by code_simp

text \<open>
  C7, amended. When the correspondence reservations meet the background target, a tick
  never calls \<^verbatim>\<open>choose_opponent\<close> for a correspondence challenge
  (\<^verbatim>\<open>correspondence_only=True\<close>); the real-time steps may still call it for the open bot
  lanes, and when the number of active games has reached the cap of the tick, the tick
  changes nothing and calls nothing.
\<close>

theorem no_correspondence_selection_at_target:
  assumes "slots m = Some sl"
    and "max_background_correspondence_games m \<le> enat (correspondence_reservation_count sl)"
  shows "(\<exists>new. events (challenge env now A q mg m) = events m @ new
              \<and> (\<forall>lanes. EvChooseOpponent lanes True \<notin> set new))
       \<and> ((if allow_during_games (matchmaking_cfg m) then mg else min 1 mg) \<le> int (fcard A)
            \<longrightarrow> challenge env now A q mg m = m)"
proof -
  have bg: "challenge_for_background_correspondence env now A m = (False, m)"
    by (rule background_at_target [OF assms])
  have ch: "challenge env now A q mg m = (if q \<noteq> [] then m else realtime_step env now A mg m)"
    by (simp add: challenge_unfold bg)
  have "log_extends (\<lambda>e. (is_choose_opponent e \<longrightarrow> (\<exists>lanes. e = EvChooseOpponent (Some lanes) False))
                    \<and> \<not> is_forced_check e) m (challenge env now A q mg m)"
    unfolding ch by (simp add: realtime_step_log log_extends_refl)
  then obtain new where new: "events (challenge env now A q mg m) = events m @ new"
    and all: "list_all (\<lambda>e. (is_choose_opponent e \<longrightarrow> (\<exists>lanes. e = EvChooseOpponent (Some lanes) False))
                    \<and> \<not> is_forced_check e) new"
    unfolding log_extends_def by blast
  have "EvChooseOpponent lanes True \<notin> set new" for lanes
  proof
    assume "EvChooseOpponent lanes True \<in> set new"
    with all have "\<exists>l. EvChooseOpponent lanes True = EvChooseOpponent (Some l) False"
      by (auto simp: list_all_iff)
    then show False by simp
  qed
  with new have first: "\<exists>new. events (challenge env now A q mg m) = events m @ new
              \<and> (\<forall>lanes. EvChooseOpponent lanes True \<notin> set new)"
    by blast
  have second: "challenge env now A q mg m = m"
    if "(if allow_during_games (matchmaking_cfg m) then mg else min 1 mg) \<le> int (fcard A)"
    unfolding ch using realtime_step_full [OF that] by simp
  show ?thesis using first second by blast
qed

theorem no_correspondence_selection_at_target_witness:
  "slots at_target_state = Some at_target_slots
   \<and> max_background_correspondence_games at_target_state
        \<le> enat (correspondence_reservation_count at_target_slots)
   \<and> (if allow_during_games (matchmaking_cfg at_target_state) then 3 else min 1 3)
        \<le> int (fcard {|''g1'', ''g2'', ''g3''|})
   \<and> challenge accepting_env (minutes 31) {|''g1'', ''g2'', ''g3''|} [] 3 at_target_state
        = at_target_state"
proof -
  have h1: "slots at_target_state = Some at_target_slots" by code_simp
  have h2: "max_background_correspondence_games at_target_state
        \<le> enat (correspondence_reservation_count at_target_slots)" by code_simp
  have h3: "(if allow_during_games (matchmaking_cfg at_target_state) then 3 else min 1 3)
        \<le> int (fcard {|''g1'', ''g2'', ''g3''|})" by code_simp
  show ?thesis
    using h1 h2 h3
      no_correspondence_selection_at_target [OF h1 h2, where mg = 3
        and A = "{|''g1'', ''g2'', ''g3''|}" and env = accepting_env and now = "minutes 31" and q = "[]"]
    by blast
qed

subsection \<open>The one-shot flag\<close>

text \<open>
  C8, as stated, fails: with the correspondence target met (one correspondence game is
  still tracked), the tick that follows \<^verbatim>\<open>correspondence_game_done\<close> leaves the background
  step before the flag is read. The only call of \<^verbatim>\<open>should_create_challenge\<close> is the one of
  the real-time steps, with \<^verbatim>\<open>ignore_min_wait=False\<close>, and the flag is still set after the
  tick.
\<close>

theorem forced_flag_counterexample:
  "force_immediate_challenge
     (challenge no_opponent_env (minutes 31) {||} [] 3 (correspondence_game_done at_target_state))
   \<and> events (challenge no_opponent_env (minutes 31) {||} [] 3 (correspondence_game_done at_target_state))
       = [EvShouldCreateChallenge False False, EvLiGetProfile,
          EvChooseOpponent (Some {|''short'', ''long''|}) False]"
  by code_simp

text \<open>
  C8, amended. When slot accounting is on, the correspondence reservations are below the
  target and no incoming challenge is queued, the tick that follows
  \<^verbatim>\<open>correspondence_game_done\<close> first calls \<^verbatim>\<open>should_create_challenge\<close> with
  \<^verbatim>\<open>ignore_postgame_timeout=True\<close> and \<^verbatim>\<open>ignore_min_wait=True\<close>, makes no other call with
  \<^verbatim>\<open>ignore_min_wait=True\<close>, and ends with the flag reset, whatever opponent selection and
  the game service answer; the tick after it, whatever its arguments, makes no call with
  \<^verbatim>\<open>ignore_min_wait=True\<close> and leaves the flag reset.
\<close>

theorem forced_check_on_next_tick:
  assumes "slots m = Some sl" and "enabled sl"
    and "enat (correspondence_reservation_count sl) < max_background_correspondence_games m"
    and "m1 = challenge env now A [] mg (correspondence_game_done m)"
    and "m2 = challenge env' now' A' q' mg' m1"
  shows "(\<exists>rest. events m1 = events m @ EvShouldCreateChallenge True True # rest
               \<and> list_all (\<lambda>e. \<not> is_forced_check e) rest)
       \<and> \<not> force_immediate_challenge m1
       \<and> (\<exists>new. events m2 = events m1 @ new \<and> list_all (\<lambda>e. \<not> is_forced_check e) new)
       \<and> \<not> force_immediate_challenge m2"
proof -
  let ?d = "correspondence_game_done m"
  let ?s = "snd (should_create_challenge now True True (?d\<lparr>force_immediate_challenge := False\<rparr>))"
  let ?b = "snd (challenge_for_background_correspondence env now A ?d)"
  let ?N = "\<lambda>e. \<not> is_forced_check e"
  have d: "slots ?d = Some sl" "force_immediate_challenge ?d" "events ?d = events m"
    "max_background_correspondence_games ?d = max_background_correspondence_games m"
    using assms(1) by (simp_all add: correspondence_game_done_def)
  have below: "challenge_for_background_correspondence env now A ?d = (False, ?s)
     \<or> challenge_for_background_correspondence env now A ?d
          = create_matchmaking_challenge env now A None True ?s"
    using background_below_target [of ?d sl now env A] d assms(2,3) by (simp add: Let_def)
  obtain r0 where r0: "events ?s = events m @ EvShouldCreateChallenge True True # r0" "list_all ?N r0"
    using should_create_challenge_events [of now True True "?d\<lparr>force_immediate_challenge := False\<rparr>"] d(3)
    by (auto simp: list_all_iff)
  have sf: "\<not> force_immediate_challenge ?s"
    by (simp add: should_create_challenge_force)
  have cm: "log_extends ?N ?s (snd (create_matchmaking_challenge env now A None True ?s))"
    by (rule log_extends_mono [OF create_matchmaking_challenge_log]) simp
  have bl: "log_extends ?N ?s ?b"
    using below cm by (auto simp: log_extends_refl)
  have bf: "\<not> force_immediate_challenge ?b"
    using below sf by (auto simp: create_matchmaking_challenge_force)
  have rl: "log_extends ?N ?b (realtime_step env now A mg ?b)"
    by (rule log_extends_mono [OF realtime_step_log]) simp
  have m1_cases: "m1 = ?b \<or> m1 = realtime_step env now A mg ?b"
    unfolding assms(4)
    by (cases "challenge_for_background_correspondence env now A ?d") (auto simp: challenge_unfold)
  have l1: "log_extends ?N ?s m1"
    using m1_cases bl log_extends_trans [OF bl rl] by auto
  have f1: "\<not> force_immediate_challenge m1"
    using m1_cases bf by (auto simp: realtime_step_force)
  obtain r1 where r1: "events m1 = events ?s @ r1" "list_all ?N r1"
    using l1 unfolding log_extends_def by blast
  have e1: "events m1 = events m @ EvShouldCreateChallenge True True # (r0 @ r1) \<and> list_all ?N (r0 @ r1)"
    using r0 r1 by simp
  have l2: "log_extends ?N m1 m2"
    unfolding assms(5)
    by (rule log_extends_mono [OF challenge_log]) (use f1 in simp)
  have f2: "\<not> force_immediate_challenge m2"
    unfolding assms(5) using challenge_force [of env' now' A' q' mg' m1] f1 by blast
  show ?thesis
    using e1 f1 l2 f2 unfolding log_extends_def by blast
qed

theorem forced_check_on_next_tick_witness:
  "slots below_target_state = Some (MatchmakingSlots_init 3)
   \<and> enabled (MatchmakingSlots_init 3)
   \<and> enat (correspondence_reservation_count (MatchmakingSlots_init 3))
        < max_background_correspondence_games below_target_state
   \<and> \<not> force_immediate_challenge
         (challenge accepting_env (minutes 31) {||} [] 3 (correspondence_game_done below_target_state))
   \<and> \<not> force_immediate_challenge
         (challenge no_opponent_env (minutes 33) {||} [] 3
           (challenge accepting_env (minutes 31) {||} [] 3 (correspondence_game_done below_target_state)))"
proof -
  have h1: "slots below_target_state = Some (MatchmakingSlots_init 3)" by code_simp
  have h2: "enabled (MatchmakingSlots_init 3)" by code_simp
  have h3: "enat (correspondence_reservation_count (MatchmakingSlots_init 3))
        < max_background_correspondence_games below_target_state" by code_simp
  show ?thesis
    using h1 h2 h3
      forced_check_on_next_tick [OF h1 h2 h3 refl refl, where env = accepting_env
        and now = "minutes 31" and A = "{||}" and mg = 3 and env' = no_opponent_env
        and now' = "minutes 33" and A' = "{||}" and q' = "[]" and mg' = 3]
    by blast
qed

section \<open>Properties of the weights\<close>

lemma suitable_opponent_rating:
  "is_suitable_opponent own_username in_block_list game_type min_rating max_rating b
   \<Longrightarrow> min_rating \<le> rating game_type b \<and> rating game_type b \<le> max_rating"
  by (auto simp: is_suitable_opponent_def rating_def Let_def split: option.splits)

lemma high_weight_positive:
  "min_rating \<le> r \<Longrightarrow> (1::int) \<le> r - min (min_rating - (max_rating - min_rating)) (min_rating - 1)"
  by (simp add: min_def)

lemma low_weight_positive:
  "r \<le> max_rating \<Longrightarrow> (1::int) \<le> max (max_rating - (min_rating - max_rating)) (max_rating + 1) - r"
  by (simp add: max_def)

text \<open>
  C10. For the rating preference \<^verbatim>\<open>high\<close> or \<^verbatim>\<open>low\<close>, if \<open>min_rating \<le> max_rating\<close> and the
  rating of every candidate in the chosen category lies between them, then
  \<^verbatim>\<open>get_weights\<close> returns one weight for each candidate and every weight is an integer not
  less than 1.
\<close>

theorem get_weights_positive:
  assumes "rating_preference = ''high'' \<or> rating_preference = ''low''"
    and "min_rating \<le> max_rating"
    and "\<forall>b \<in> set online_bots. min_rating \<le> rating game_type b \<and> rating game_type b \<le> max_rating"
  shows "(\<forall>w \<in> set (get_weights online_bots rating_preference min_rating max_rating game_type). 1 \<le> w)
       \<and> length (get_weights online_bots rating_preference min_rating max_rating game_type)
           = length online_bots"
proof (cases "rating_preference = ''high''")
  case True
  have "1 \<le> rating game_type b - min (min_rating - (max_rating - min_rating)) (min_rating - 1)"
    if "b \<in> set online_bots" for b
    using assms(3) that by (intro high_weight_positive) blast
  then show ?thesis using True by (auto simp: get_weights_def Let_def)
next
  case False
  then have low: "rating_preference = ''low''" using assms(1) by simp
  have "1 \<le> max (max_rating - (min_rating - max_rating)) (max_rating + 1) - rating game_type b"
    if "b \<in> set online_bots" for b
    using assms(3) that by (intro low_weight_positive) blast
  then show ?thesis using low by (auto simp: get_weights_def Let_def)
qed

theorem get_weights_positive_witness:
  "(''low'' = ''high'' \<or> ''low'' = ''low'') \<and> (1000::int) \<le> 2000
   \<and> list_all (\<lambda>b. 1000 \<le> rating ''blitz'' b \<and> rating ''blitz'' b \<le> 2000) example_bots
   \<and> list_all (\<lambda>w. 1 \<le> w) (get_weights example_bots ''low'' 1000 2000 ''blitz'')
   \<and> get_weights example_bots ''low'' 1000 2000 ''blitz'' = [2000, 1000]
   \<and> get_weights example_bots ''high'' 1000 2000 ''blitz'' = [1000, 2000]"
proof -
  have h1: "''low'' = ''high'' \<or> ''low'' = ''low''" by simp
  have h2: "(1000::int) \<le> 2000" by simp
  have h3: "\<forall>b \<in> set example_bots. 1000 \<le> rating ''blitz'' b \<and> rating ''blitz'' b \<le> 2000"
    by (simp add: example_bots_def rating_def)
  have v1: "get_weights example_bots ''low'' 1000 2000 ''blitz'' = [2000, 1000]" by code_simp
  have v2: "get_weights example_bots ''high'' 1000 2000 ''blitz'' = [1000, 2000]" by code_simp
  show ?thesis
    using h1 h2 h3 v1 v2 get_weights_positive [OF h1 h2 h3]
    by (simp add: list_all_iff)
qed

text \<open>
  The candidates that pass the filter of \<^verbatim>\<open>choose_opponent\<close> satisfy the hypothesis on the
  ratings.
\<close>

lemma get_weights_of_suitable_positive:
  assumes "rating_preference = ''high'' \<or> rating_preference = ''low''"
  shows "\<forall>w \<in> set (get_weights
            (filter (is_suitable_opponent own_username in_block_list game_type min_rating max_rating) bots)
            rating_preference min_rating max_rating game_type). 1 \<le> w"
  using assms
  by (auto simp: get_weights_def Let_def
      dest!: suitable_opponent_rating intro: high_weight_positive low_weight_positive)

end
